theory Spec2Isabelle
  imports Main "HOL-Library.AList"
begin

section \<open>Python values shared by the ingestion pipeline and the conversation engine\<close>

text \<open>
  An exception is represented by the text \<open>str(e)\<close> that the handlers of the source
  interpolate into their messages. A Python string is a list of characters, so
  \<open>length\<close> is Python's \<open>len\<close>.
\<close>

type_synonym exn = string

datatype mval = S string | N nat

type_synonym metadata_dict = "(string \<times> mval) list"

text \<open>\<open>d.update({k1: v1, ...})\<close> on a dictionary kept in insertion order.\<close>

definition dict_update :: "metadata_dict \<Rightarrow> (string \<times> mval) list \<Rightarrow> metadata_dict" where
  "dict_update d kvs = foldl (\<lambda>m (k, v). AList.update k v m) d kvs"

text \<open>The \<open>Document\<close> of \<open>langchain.schema\<close>: a text and its metadata dictionary.\<close>

record document =
  page_content :: string
  metadata :: metadata_dict

text \<open>\<open>str.endswith\<close> and (POSIX) \<open>os.path.join\<close> of two components.\<close>

definition endswith :: "string \<Rightarrow> string \<Rightarrow> bool" where
  "endswith s suf \<longleftrightarrow> length suf \<le> length s \<and> drop (length s - length suf) s = suf"

definition path_join :: "string \<Rightarrow> string \<Rightarrow> string" where
  "path_join dir file =
     (if file \<noteq> [] \<and> hd file = CHR ''/'' then file
      else if dir = [] \<or> last dir = CHR ''/'' then dir @ file
      else dir @ ''/'' @ file)"

section \<open>config.py: the defaults of \<open>RAGConfig\<close>\<close>



section \<open>ingest.py: the world outside \<open>AdvancedDocumentIngestor\<close>\<close>

text \<open>
  \<open>RecursiveCharacterTextSplitter(chunk_size, chunk_overlap, separators)\<close>: the object
  is its three constructor arguments; what it computes is the library's and is a
  parameter of the environment below.
\<close>

datatype splitter = RecursiveCharacterTextSplitter nat nat "string list"

text \<open>
  The persisted log \<open>processed_files.json\<close>. An entry is the dictionary the source
  writes; \<open>hash\<close> is \<open>entry.get('hash')\<close>, which is \<open>None\<close> for an entry without
  that key. The file is absent, or \<open>json.load\<close> raises on it, or it holds a log.
\<close>

record log_entry =
  hash :: "string option"
  processed_date :: string
  chunks_count :: nat

type_synonym processed_log = "string \<rightharpoonup> log_entry"

datatype log_file = Absent | Unreadable exn | Stored processed_log

text \<open>
  What persists between two runs: the log file and the points of the Qdrant
  collection \<open>collection_name\<close> (\<open>None\<close> while the collection does not exist). A point
  is stored under a fresh identifier, so the collection is a list that may hold the
  same chunk twice.
\<close>

record world =
  log_file :: log_file
  collection :: "document list option"

text \<open>How writing the log file ends: \<open>open(.., 'w')\<close> raises and the file is as
  before, or \<open>json.dump\<close> raises on the truncated file (a later \<open>json.load\<close> then
  raises the second exception), or the log is written.\<close>

datatype log_write = Written | Open_fails exn | Dump_fails exn exn

text \<open>
  Everything one run reads from outside the process: the directory walk, the file
  contents, the PDF loader, the text splitter, the clock, and whether each provider
  call fails. \<open>from_documents_fault = Some (e, n)\<close> is \<open>Qdrant.from_documents\<close>
  raising \<open>e\<close> after \<open>n\<close> chunks were uploaded.
\<close>

record env =
  walk :: "string \<Rightarrow> (string \<times> string list) list"
  relpath :: "string \<Rightarrow> string \<Rightarrow> string"
  read_bytes :: "string \<Rightarrow> exn + string"
  md5_hexdigest :: "string \<Rightarrow> string"
  getsize :: "string \<Rightarrow> exn + nat"
  pdf_load :: "string \<Rightarrow> exn + document list"
  split_text :: "splitter \<Rightarrow> string \<Rightarrow> string list"
  now_isoformat :: string
  get_collections_fault :: "exn option"
  from_documents_fault :: "(exn \<times> nat) option"
  log_write :: log_write

subsection \<open>The log of processed files\<close>

definition load_processed_files_log :: "world \<Rightarrow> exn + processed_log" where
  "load_processed_files_log w =
     (case log_file w of
        Absent \<Rightarrow> Inr Map.empty
      | Unreadable e \<Rightarrow> Inl e
      | Stored log \<Rightarrow> Inr log)"

definition save_processed_files_log :: "env \<Rightarrow> processed_log \<Rightarrow> world \<Rightarrow> exn option \<times> world" where
  "save_processed_files_log env log w =
     (case log_write env of
        Written \<Rightarrow> (None, w\<lparr>log_file := Stored log\<rparr>)
      | Open_fails e \<Rightarrow> (Some e, w)
      | Dump_fails e e' \<Rightarrow> (Some e, w\<lparr>log_file := Unreadable e'\<rparr>))"

definition get_file_hash :: "env \<Rightarrow> string \<Rightarrow> exn + string" where
  "get_file_hash env file_path =
     (case read_bytes env file_path of
        Inl e \<Rightarrow> Inl e
      | Inr bytes \<Rightarrow> Inr (md5_hexdigest env bytes))"

subsection \<open>The vector index\<close>

text \<open>Any exception of the client is printed and swallowed.\<close>

definition create_collection_if_not_exists :: "env \<Rightarrow> world \<Rightarrow> world" where
  "create_collection_if_not_exists env w =
     (case get_collections_fault env of
        Some e \<Rightarrow> w
      | None \<Rightarrow> (case collection w of None \<Rightarrow> w\<lparr>collection := Some []\<rparr> | Some ps \<Rightarrow> w))"

text \<open>
  \<open>Qdrant.from_documents\<close> embeds the chunks and adds them to the collection (which it
  creates when missing) under new identifiers: nothing is deleted or replaced.
\<close>

definition points :: "world \<Rightarrow> document list" where
  "points w = (case collection w of None \<Rightarrow> [] | Some ps \<Rightarrow> ps)"

definition from_documents :: "env \<Rightarrow> document list \<Rightarrow> world \<Rightarrow> exn option \<times> world" where
  "from_documents env documents w =
     (case from_documents_fault env of
        None \<Rightarrow> (None, w\<lparr>collection := Some (points w @ documents)\<rparr>)
      | Some (e, n) \<Rightarrow>
          (Some e, if n = 0 then w else w\<lparr>collection := Some (points w @ take n documents)\<rparr>))"

subsection \<open>Splitting\<close>

definition splitters_default :: splitter where
  "splitters_default =
     RecursiveCharacterTextSplitter 800 100 [[CHR 0x0A, CHR 0x0A], [CHR 0x0A], ''.'', '' '', '''']"

definition splitters_large :: splitter where
  "splitters_large =
     RecursiveCharacterTextSplitter 1200 150 [[CHR 0x0A, CHR 0x0A], [CHR 0x0A], ''.'', '' '', '''']"

text \<open>\<open>splitter.split_documents([doc])\<close>: every piece of text carries a copy of the
  document's metadata.\<close>

definition split_documents :: "env \<Rightarrow> splitter \<Rightarrow> document \<Rightarrow> document list" where
  "split_documents env sp doc =
     map (\<lambda>t. \<lparr>page_content = t, metadata = metadata doc\<rparr>) (split_text env sp (page_content doc))"

text \<open>The loop \<open>for i, chunk in enumerate(chunks)\<close> that adds the chunk's position.\<close>

definition add_chunk_metadata :: "env \<Rightarrow> document list \<Rightarrow> document list" where
  "add_chunk_metadata env chunks =
     map (\<lambda>(i, chunk). chunk\<lparr>metadata := dict_update (metadata chunk)
            [(''chunk_index'', N i),
             (''total_chunks'', N (length chunks)),
             (''chunk_size'', N (length (page_content chunk))),
             (''ingestion_date'', S (now_isoformat env))]\<rparr>)
         (enumerate 0 chunks)"

definition split_one :: "env \<Rightarrow> document \<Rightarrow> document list" where
  "split_one env doc =
     (let doc_length = length (page_content doc);
          splitter = (if doc_length > 5000 then splitters_large else splitters_default);
          chunks = split_documents env splitter doc
      in add_chunk_metadata env chunks)"

definition enhanced_text_splitting :: "env \<Rightarrow> document list \<Rightarrow> document list" where
  "enhanced_text_splitting env documents = concat (map (split_one env) documents)"

subsection \<open>The ingestion run\<close>

record stats =
  total_files :: nat
  new_files :: nat
  updated_files :: nat
  skipped_files :: nat
  total_chunks :: nat
  processing_errors :: "string list"

record run_state =
  processed_log :: processed_log
  all_chunks :: "document list"
  stats :: stats

text \<open>The list \<open>all_files\<close>: for each extension, every file of the walk whose name ends
  with it, joined with its directory.\<close>

definition all_files :: "env \<Rightarrow> string \<Rightarrow> string list \<Rightarrow> string list" where
  "all_files env folder_path file_extensions =
     concat (map (\<lambda>ext.
       concat (map (\<lambda>(dir, files). map (path_join dir) (filter (\<lambda>file. endswith file ext) files))
                   (walk env folder_path)))
       file_extensions)"

text \<open>The check "does the file need processing" of the loop body (lines 148 to 158),
  with the three ways it can go.\<close>

datatype decision = Skip | New | Reprocess

definition decide :: "bool \<Rightarrow> processed_log \<Rightarrow> string \<Rightarrow> string \<Rightarrow> decision" where
  "decide force log file_key file_hash =
     (if \<not> force \<and> file_key \<in> dom log then
        (case log file_key of
           Some entry \<Rightarrow> (if hash entry = Some file_hash then Skip else Reprocess)
         | None \<Rightarrow> New)
      else New)"

definition bump_skipped :: "run_state \<Rightarrow> run_state" where
  "bump_skipped st = st\<lparr>stats := (stats st)\<lparr>skipped_files := skipped_files (stats st) + 1\<rparr>\<rparr>"

definition bump_updated :: "run_state \<Rightarrow> run_state" where
  "bump_updated st = st\<lparr>stats := (stats st)\<lparr>updated_files := updated_files (stats st) + 1\<rparr>\<rparr>"

definition bump_new :: "run_state \<Rightarrow> run_state" where
  "bump_new st = st\<lparr>stats := (stats st)\<lparr>new_files := new_files (stats st) + 1\<rparr>\<rparr>"

definition append_error :: "string \<Rightarrow> stats \<Rightarrow> stats" where
  "append_error msg s = s\<lparr>processing_errors := processing_errors s @ [msg]\<rparr>"

text \<open>The file-level metadata added to every loaded page. \<open>os.path.getsize\<close> is
  evaluated once per page, so it raises only when there is a page.\<close>

definition add_file_metadata ::
  "env \<Rightarrow> string \<Rightarrow> string \<Rightarrow> string \<Rightarrow> document list \<Rightarrow> exn + document list" where
  "add_file_metadata env file_key file_hash file_path docs =
     (if docs = [] then Inr []
      else case getsize env file_path of
        Inl e \<Rightarrow> Inl e
      | Inr file_size \<Rightarrow>
          Inr (map (\<lambda>doc. doc\<lparr>metadata := dict_update (metadata doc)
                 [(''source_file'', S file_key),
                  (''file_hash'', S file_hash),
                  (''file_size'', N file_size)]\<rparr>) docs))"

text \<open>The part of the loop body after the check, for a file that is not skipped.\<close>

definition load_and_split ::
  "env \<Rightarrow> string \<Rightarrow> string \<Rightarrow> string \<Rightarrow> run_state \<Rightarrow> exn option \<times> run_state" where
  "load_and_split env file_path file_key file_hash st =
     (if endswith file_path ''.pdf'' then
        (case pdf_load env file_path of
           Inl e \<Rightarrow> (Some e, st)
         | Inr docs \<Rightarrow>
             (case add_file_metadata env file_key file_hash file_path docs of
                Inl e \<Rightarrow> (Some e, st)
              | Inr docs' \<Rightarrow>
                  (let chunks = enhanced_text_splitting env docs'
                   in (None, st\<lparr>all_chunks := all_chunks st @ chunks,
                                processed_log := (processed_log st)(file_key \<mapsto>
                                  \<lparr>hash = Some file_hash,
                                   processed_date = now_isoformat env,
                                   chunks_count = length chunks\<rparr>)\<rparr>))))
      else (None, st))"

text \<open>
  The body of the \<open>try\<close> for one file. The result is the state as mutated so far,
  with \<open>Some e\<close> when the body raised \<open>e\<close> at that point.
\<close>

definition process_file ::
  "env \<Rightarrow> string \<Rightarrow> bool \<Rightarrow> string \<Rightarrow> run_state \<Rightarrow> exn option \<times> run_state" where
  "process_file env folder_path force file_path st =
     (case get_file_hash env file_path of
        Inl e \<Rightarrow> (Some e, st)
      | Inr file_hash \<Rightarrow>
          (let file_key = relpath env file_path folder_path in
           case decide force (processed_log st) file_key file_hash of
             Skip \<Rightarrow> (None, bump_skipped st)
           | Reprocess \<Rightarrow> load_and_split env file_path file_key file_hash (bump_updated st)
           | New \<Rightarrow> load_and_split env file_path file_key file_hash (bump_new st)))"

definition error_processing :: "string \<Rightarrow> exn \<Rightarrow> string" where
  "error_processing file_path e = ''Error processing '' @ file_path @ '': '' @ e"

text \<open>The \<open>try\<close> with its \<open>except Exception\<close>: one iteration of the loop.\<close>

definition loop_body :: "env \<Rightarrow> string \<Rightarrow> bool \<Rightarrow> run_state \<Rightarrow> string \<Rightarrow> run_state" where
  "loop_body env folder_path force st file_path =
     (case process_file env folder_path force file_path st of
        (None, st') \<Rightarrow> st'
      | (Some e, st') \<Rightarrow> st'\<lparr>stats := append_error (error_processing file_path e) (stats st')\<rparr>)"

definition initial_state :: "processed_log \<Rightarrow> nat \<Rightarrow> run_state" where
  "initial_state log n =
     \<lparr>processed_log = log, all_chunks = [],
      stats = \<lparr>total_files = n, new_files = 0, updated_files = 0, skipped_files = 0,
               total_chunks = 0, processing_errors = []\<rparr>\<rparr>"

text \<open>The state after the loop over \<open>all_files\<close>, from the log loaded at the start.\<close>

definition files_loop :: "env \<Rightarrow> string \<Rightarrow> bool \<Rightarrow> string list \<Rightarrow> run_state \<Rightarrow> run_state" where
  "files_loop env folder_path force files st = foldl (loop_body env folder_path force) st files"

definition error_ingesting :: "exn \<Rightarrow> string" where
  "error_ingesting e = ''Error ingesting into Qdrant: '' @ e"

text \<open>The part of the run after the loop: nothing to do without chunks; otherwise
  upload, then count, then save the log, one \<open>except\<close> around the three.\<close>

definition ingest_into_qdrant :: "env \<Rightarrow> run_state \<Rightarrow> world \<Rightarrow> stats \<times> world" where
  "ingest_into_qdrant env st w =
     (if all_chunks st = [] then (stats st, w)
      else case from_documents env (all_chunks st) w of
        (Some e, w') \<Rightarrow> (append_error (error_ingesting e) (stats st), w')
      | (None, w') \<Rightarrow>
          (let s = (stats st)\<lparr>total_chunks := length (all_chunks st)\<rparr> in
           case save_processed_files_log env (processed_log st) w' of
             (Some e, w'') \<Rightarrow> (append_error (error_ingesting e) s, w'')
           | (None, w'') \<Rightarrow> (s, w'')))"

text \<open>
  \<open>ingest_documents_with_deduplication\<close>. \<open>Inl e\<close> is the exception \<open>e\<close> leaving the
  method; the world is returned as the run left it.
\<close>

definition ingest_documents_with_deduplication ::
  "env \<Rightarrow> string \<Rightarrow> string list \<Rightarrow> bool \<Rightarrow> world \<Rightarrow> (exn + stats) \<times> world" where
  "ingest_documents_with_deduplication env folder_path file_extensions force w =
     (let w1 = create_collection_if_not_exists env w in
      case load_processed_files_log w1 of
        Inl e \<Rightarrow> (Inl e, w1)
      | Inr log \<Rightarrow>
          (let files = all_files env folder_path file_extensions;
               st = files_loop env folder_path force files (initial_state log (length files));
               (s, w2) = ingest_into_qdrant env st w1
           in (Inr s, w2)))"

section \<open>rag_chain.py: \<open>AdvancedRAGChain.query\<close>\<close>

datatype message = HumanMessage string | AIMessage string

text \<open>The values of the dictionaries \<open>query\<close> returns; \<open>'f\<close> stands for the floats
  of the cost, which are only passed on.\<close>

datatype 'f pyval =
    PyStr string
  | PyInt nat
  | PyFloat 'f
  | PyDocs "document list"
  | PyMessages "message list"
  | PyDict "(string \<times> 'f pyval) list"

text \<open>
  One call \<open>self.qa_chain({"question": question})\<close> under \<open>get_openai_callback\<close>:
  retrieval, compression and generation all happen inside it, and an exception of any
  of them leaves the call. When it returns there is the chain's result, the messages
  of the memory afterwards and the totals of the callback.
\<close>

record 'f chain_run =
  result_answer :: string
  result_source_documents :: "document list"
  memory_messages :: "message list"
  cb_total_tokens :: nat
  cb_total_cost :: 'f

record 'f chain_env =
  qa_chain :: "string \<Rightarrow> exn + 'f chain_run"
  datetime_now :: string

text \<open>\<open>try: body except Exception as e: handler(e)\<close>, where both may raise.\<close>

definition try_except :: "exn + 'a \<Rightarrow> (exn \<Rightarrow> exn + 'a) \<Rightarrow> exn + 'a" where
  "try_except body handler = (case body of Inl e \<Rightarrow> handler e | Inr v \<Rightarrow> Inr v)"

definition enhanced_result :: "'f chain_env \<Rightarrow> 'f chain_run \<Rightarrow> (string \<times> 'f pyval) list" where
  "enhanced_result c r =
     [(''answer'', PyStr (result_answer r)),
      (''source_documents'', PyDocs (result_source_documents r)),
      (''chat_history'', PyMessages (memory_messages r)),
      (''metadata'', PyDict
         [(''timestamp'', PyStr (datetime_now c)),
          (''tokens_used'', PyInt (cb_total_tokens r)),
          (''cost'', PyFloat (cb_total_cost r)),
          (''num_sources'', PyInt (length (result_source_documents r)))])]"

definition error_result :: "exn \<Rightarrow> (string \<times> 'f pyval) list" where
  "error_result e =
     [(''answer'', PyStr (''Sorry, I encountered an error: '' @ e)),
      (''source_documents'', PyDocs []),
      (''chat_history'', PyMessages []),
      (''metadata'', PyDict [(''error'', PyStr e)])]"

text \<open>\<open>query\<close>: \<open>Inl e\<close> would be the exception \<open>e\<close> leaving the method.\<close>

definition query :: "'f chain_env \<Rightarrow> string \<Rightarrow> exn + (string \<times> 'f pyval) list" where
  "query c question =
     try_except
       (case qa_chain c question of
          Inl e \<Rightarrow> Inl e
        | Inr r \<Rightarrow> Inr (enhanced_result c r))
       (\<lambda>e. Inr (error_result e))"

section \<open>Notions used in the statements\<close>

text \<open>A file is recorded in a log when its key is there under the hash of its
  present content.\<close>

definition recorded :: "env \<Rightarrow> string \<Rightarrow> processed_log \<Rightarrow> string \<Rightarrow> bool" where
  "recorded env folder_path log file_path \<longleftrightarrow>
     (case get_file_hash env file_path of
        Inl e \<Rightarrow> False
      | Inr h \<Rightarrow> (case log (relpath env file_path folder_path) of
                   None \<Rightarrow> False
                 | Some entry \<Rightarrow> hash entry = Some h))"


section \<open>Example environments\<close>

text \<open>
  A folder that holds the single file \<open>name\<close> with the given content; the loader
  returns one page whose text is the content and the splitter returns the text as one
  chunk. The digest is the content itself: an injective stand-in for MD5, of which the
  runs only compare values for equality.
\<close>

definition example_env :: "string \<Rightarrow> string \<Rightarrow> env" where
  "example_env name content =
     \<lparr> walk = (\<lambda>folder. [(folder, [name])]),
       relpath = (\<lambda>p start. drop (length start + 1) p),
       read_bytes = (\<lambda>p. Inr content),
       md5_hexdigest = (\<lambda>bytes. bytes),
       getsize = (\<lambda>p. Inr (length content)),
       pdf_load = (\<lambda>p. Inr [\<lparr>page_content = content, metadata = [(''source'', S p), (''page'', N 0)]\<rparr>]),
       split_text = (\<lambda>sp t. [t]),
       now_isoformat = ''2024-01-01T00:00:00'',
       get_collections_fault = None,
       from_documents_fault = None,
       log_write = Written \<rparr>"

text \<open>No log file and no collection yet.\<close>

definition empty_world :: world where
  "empty_world = \<lparr>log_file = Absent, collection = None\<rparr>"

text \<open>The same folder with a PDF the loader cannot parse.\<close>

definition unparsable_env :: env where
  "unparsable_env = (example_env ''a.pdf'' ''v1'')\<lparr>pdf_load := (\<lambda>p. Inl ''EOF marker not found'')\<rparr>"

text \<open>The same folder while the vector index cannot be reached.\<close>

definition unreachable_env :: env where
  "unreachable_env = (example_env ''a.pdf'' ''v1'')\<lparr>from_documents_fault := Some (''timed out'', 0)\<rparr>"

text \<open>A log that knows \<open>a.pdf\<close> with the content \<open>v1\<close>, and a log file that
  \<open>json.load\<close> rejects.\<close>

definition log_v1 :: processed_log where
  "log_v1 = Map.empty(''a.pdf'' \<mapsto>
     \<lparr>hash = Some ''v1'', processed_date = ''2024-01-01T00:00:00'', chunks_count = 1\<rparr>)"

text \<open>A folder with two PDFs of the same content, and a world whose log file
  holds \<open>log_v1\<close>.\<close>

definition two_pdf_env :: env where
  "two_pdf_env = (example_env ''a.pdf'' ''v1'')\<lparr>walk := (\<lambda>folder. [(folder, [''a.pdf'', ''b.pdf''])])\<rparr>"

definition world_v1 :: world where
  "world_v1 = \<lparr>log_file = Stored log_v1, collection = Some []\<rparr>"

definition corrupt_world :: world where
  "corrupt_world =
     \<lparr>log_file = Unreadable ''Expecting value: line 1 column 1 (char 0)'', collection = None\<rparr>"



definition failing_chain :: "nat chain_env" where
  "failing_chain = \<lparr>qa_chain = (\<lambda>q. Inl ''Rate limit reached''), datetime_now = ''2024-01-01T00:00:00''\<rparr>"

section \<open>Lemmas about one file, the loop and the upload\<close>

lemma load_and_split_stats:
  "stats (snd (load_and_split env f k h st)) = stats st"
  by (simp add: load_and_split_def Let_def split: sum.splits)

lemma load_and_split_log_other:
  "k' \<noteq> k \<Longrightarrow> processed_log (snd (load_and_split env f k h st)) k' = processed_log st k'"
  by (simp add: load_and_split_def Let_def split: sum.splits)

lemma load_and_split_pdf_ok:
  "endswith f ''.pdf'' \<Longrightarrow> load_and_split env f k h st = (None, st') \<Longrightarrow>
   \<exists>e. processed_log st' k = Some e \<and> hash e = Some h"
  by (auto simp add: load_and_split_def Let_def split: sum.splits)

lemma decide_Skip_iff:
  "decide force log k h = Skip \<longleftrightarrow> \<not> force \<and> (\<exists>e. log k = Some e \<and> hash e = Some h)"
  by (auto simp add: decide_def split: option.splits if_splits)

lemma decide_Reprocess_iff:
  "decide force log k h = Reprocess \<longleftrightarrow> \<not> force \<and> (\<exists>e. log k = Some e \<and> hash e \<noteq> Some h)"
  by (auto simp add: decide_def split: option.splits if_splits)

lemma decide_New_iff:
  "decide force log k h = New \<longleftrightarrow> force \<or> log k = None"
  by (auto simp add: decide_def split: option.splits if_splits)

lemma process_file_recorded_skip:
  assumes "recorded env folder (processed_log st) f"
  shows "process_file env folder False f st = (None, bump_skipped st)"
proof -
  obtain h where h: "get_file_hash env f = Inr h"
    using assms by (cases "get_file_hash env f") (simp_all add: recorded_def)
  with assms have "decide False (processed_log st) (relpath env f folder) h = Skip"
    by (simp add: decide_Skip_iff recorded_def split: option.splits)
  with h show ?thesis by (simp add: process_file_def)
qed

lemma process_file_records:
  assumes "process_file env folder False f st = (None, st')" and "endswith f ''.pdf''"
  shows "recorded env folder (processed_log st') f"
proof (cases "get_file_hash env f")
  case (Inl e)
  with assms show ?thesis by (simp add: process_file_def)
next
  case (Inr h)
  let ?k = "relpath env f folder"
  show ?thesis
  proof (cases "decide False (processed_log st) ?k h")
    case Skip
    then have "recorded env folder (processed_log st) f"
      by (auto simp add: recorded_def Inr decide_Skip_iff)
    moreover from Skip Inr assms have "st' = bump_skipped st"
      by (simp add: process_file_def)
    ultimately show ?thesis by (simp add: bump_skipped_def)
  next
    case New
    with Inr assms have "load_and_split env f ?k h (bump_new st) = (None, st')"
      by (simp add: process_file_def)
    from load_and_split_pdf_ok [OF assms(2) this] show ?thesis
      by (auto simp add: recorded_def Inr)
  next
    case Reprocess
    with Inr assms have "load_and_split env f ?k h (bump_updated st) = (None, st')"
      by (simp add: process_file_def)
    from load_and_split_pdf_ok [OF assms(2) this] show ?thesis
      by (auto simp add: recorded_def Inr)
  qed
qed

lemma process_file_keeps_recorded:
  assumes "recorded env folder (processed_log st) g"
    and "relpath env f folder = relpath env g folder \<Longrightarrow> f = g"
  shows "recorded env folder (processed_log (snd (process_file env folder False f st))) g"
proof (cases "f = g")
  case True
  with assms(1) show ?thesis
    by (simp add: process_file_recorded_skip bump_skipped_def)
next
  case False
  with assms(2) have ne: "relpath env f folder \<noteq> relpath env g folder" by blast
  show ?thesis
  proof (cases "get_file_hash env f")
    case (Inl e)
    with assms(1) show ?thesis by (simp add: process_file_def)
  next
    case (Inr h)
    let ?k = "relpath env f folder"
    have *: "recorded env folder (processed_log (snd (load_and_split env f ?k h s))) g"
      if "processed_log s = processed_log st" for s
      using load_and_split_log_other [of "relpath env g folder" ?k env f h s] assms(1) ne that
      by (simp add: recorded_def split: sum.splits)
    show ?thesis
      using assms(1) * [of "bump_new st"] * [of "bump_updated st"]
      by (cases "decide False (processed_log st) ?k h")
         (simp_all add: process_file_def Inr bump_skipped_def bump_new_def bump_updated_def)
  qed
qed

lemma process_file_errors:
  "processing_errors (stats (snd (process_file env folder force f st))) = processing_errors (stats st)"
  by (simp add: process_file_def Let_def load_and_split_stats bump_skipped_def bump_new_def
      bump_updated_def split: sum.splits decision.splits)

lemma loop_body_errors:
  "processing_errors (stats (loop_body env folder force st f)) =
     processing_errors (stats st) @
       (case fst (process_file env folder force f st) of
          None \<Rightarrow> [] | Some e \<Rightarrow> [error_processing f e])"
  using process_file_errors [of env folder force f st]
  by (cases "process_file env folder force f st")
     (simp add: loop_body_def append_error_def split: option.splits)

lemma loop_body_log:
  "processed_log (loop_body env folder force st f) =
     processed_log (snd (process_file env folder force f st))"
  by (cases "process_file env folder force f st")
     (simp add: loop_body_def split: option.splits)

lemma files_loop_Cons:
  "files_loop env folder force (f # fs) st =
     files_loop env folder force fs (loop_body env folder force st f)"
  by (simp add: files_loop_def)

lemma files_loop_Nil: "files_loop env folder force [] st = st"
  by (simp add: files_loop_def)

lemma files_loop_append:
  "files_loop env folder force (fs @ gs) st =
     files_loop env folder force gs (files_loop env folder force fs st)"
  by (simp add: files_loop_def)

lemma files_loop_errors_grow:
  "\<exists>es. processing_errors (stats (files_loop env folder force fs st)) =
     processing_errors (stats st) @ es"
proof (induction fs arbitrary: st)
  case Nil
  show ?case by (simp add: files_loop_Nil)
next
  case (Cons f fs)
  from Cons.IH [of "loop_body env folder force st f"]
  show ?case by (auto simp add: files_loop_Cons loop_body_errors)
qed

lemma no_errors_step:
  assumes "processing_errors (stats (files_loop env folder force (f # fs) st)) = []"
  shows "process_file env folder force f st = (None, loop_body env folder force st f)"
    and "processing_errors (stats (files_loop env folder force fs (loop_body env folder force st f))) = []"
proof -
  from assms show "processing_errors (stats (files_loop env folder force fs (loop_body env folder force st f))) = []"
    by (simp add: files_loop_Cons)
  with files_loop_errors_grow [of env folder force fs "loop_body env folder force st f"]
  have "processing_errors (stats (loop_body env folder force st f)) = []" by auto
  then have "fst (process_file env folder force f st) = None"
    by (simp add: loop_body_errors split: option.splits)
  then show "process_file env folder force f st = (None, loop_body env folder force st f)"
    by (cases "process_file env folder force f st") (simp add: loop_body_def)
qed

lemma files_loop_records:
  assumes "processing_errors (stats (files_loop env folder False fs st)) = []"
    and "\<forall>f \<in> set fs. endswith f ''.pdf''"
    and "inj_on (\<lambda>f. relpath env f folder) (set fs \<union> G)"
    and "\<forall>g \<in> G. recorded env folder (processed_log st) g"
  shows "\<forall>g \<in> set fs \<union> G. recorded env folder (processed_log (files_loop env folder False fs st)) g"
  using assms
proof (induction fs arbitrary: st G)
  case Nil
  then show ?case by (simp add: files_loop_Nil)
next
  case (Cons f fs)
  let ?st = "loop_body env folder False st f"
  from no_errors_step [OF Cons.prems(1)]
  have ok: "process_file env folder False f st = (None, ?st)"
    and rest: "processing_errors (stats (files_loop env folder False fs ?st)) = []"
    by simp_all
  have pdf: "endswith f ''.pdf''" using Cons.prems(2) by simp
  have f_rec: "recorded env folder (processed_log ?st) f"
    by (rule process_file_records [OF ok pdf])
  have G_rec: "recorded env folder (processed_log ?st) g" if "g \<in> G" for g
  proof -
    have same: "relpath env f folder = relpath env g folder \<Longrightarrow> f = g"
      using Cons.prems(3) that by (auto dest: inj_onD)
    have "recorded env folder (processed_log st) g"
      using Cons.prems(4) that by simp
    then have "recorded env folder (processed_log (snd (process_file env folder False f st))) g"
      using same by (rule process_file_keeps_recorded)
    then show ?thesis by (simp add: ok)
  qed
  have inj: "inj_on (\<lambda>f. relpath env f folder) (set fs \<union> insert f G)"
    using Cons.prems(3) by (simp add: Un_commute insert_commute Un_insert_left Un_insert_right)
  have "\<forall>g \<in> set fs \<union> insert f G.
          recorded env folder (processed_log (files_loop env folder False fs ?st)) g"
    by (rule Cons.IH [OF rest _ inj]) (use Cons.prems(2) f_rec G_rec in auto)
  then show ?case by (simp add: files_loop_Cons)
qed

lemma files_loop_all_skipped:
  assumes "\<forall>f \<in> set fs. recorded env folder (processed_log st) f"
  shows "files_loop env folder False fs st =
           st\<lparr>stats := (stats st)\<lparr>skipped_files := skipped_files (stats st) + length fs\<rparr>\<rparr>"
  using assms
proof (induction fs arbitrary: st)
  case Nil
  then show ?case by (simp add: files_loop_Nil)
next
  case (Cons f fs)
  have step: "loop_body env folder False st f = bump_skipped st"
    using Cons.prems by (simp add: loop_body_def process_file_recorded_skip)
  have "\<forall>g \<in> set fs. recorded env folder (processed_log (bump_skipped st)) g"
    using Cons.prems by (simp add: bump_skipped_def)
  from Cons.IH [OF this] show ?case
    by (simp add: files_loop_Cons step bump_skipped_def)
qed


lemma process_file_totals:
  "total_files (stats (snd (process_file env folder force f st))) = total_files (stats st)"
  "total_chunks (stats (snd (process_file env folder force f st))) = total_chunks (stats st)"
  by (cases "get_file_hash env f";
      simp add: process_file_def Let_def load_and_split_stats
        bump_skipped_def bump_new_def bump_updated_def split: decision.splits)+

lemma loop_body_stats:
  "stats (loop_body env folder force st f) =
     (case fst (process_file env folder force f st) of
        None \<Rightarrow> stats (snd (process_file env folder force f st))
      | Some e \<Rightarrow> append_error (error_processing f e) (stats (snd (process_file env folder force f st))))"
  by (cases "process_file env folder force f st") (simp add: loop_body_def split: option.splits)


lemma loop_body_totals:
  "total_files (stats (loop_body env folder force st f)) = total_files (stats st)"
  "total_chunks (stats (loop_body env folder force st f)) = total_chunks (stats st)"
  by (simp_all add: loop_body_stats append_error_def process_file_totals split: option.splits)


lemma files_loop_totals:
  "total_files (stats (files_loop env folder force fs st)) = total_files (stats st)"
  "total_chunks (stats (files_loop env folder force fs st)) = total_chunks (stats st)"
  by (induction fs arbitrary: st) (simp_all add: files_loop_Nil files_loop_Cons loop_body_totals)

lemma create_collection_log_file:
  "log_file (create_collection_if_not_exists env w) = log_file w"
  by (simp add: create_collection_if_not_exists_def split: option.splits)

lemma load_after_create:
  "load_processed_files_log (create_collection_if_not_exists env w) = load_processed_files_log w"
  by (simp add: load_processed_files_log_def create_collection_log_file)

lemma from_documents_log_file:
  "log_file (snd (from_documents env docs w)) = log_file w"
  by (simp add: from_documents_def split: option.splits prod.splits)

lemma from_documents_fst:
  "fst (from_documents env docs w) = map_option fst (from_documents_fault env)"
  by (simp add: from_documents_def split: option.splits prod.splits)

lemma save_fst:
  "fst (save_processed_files_log env log w) =
     (case log_write env of Written \<Rightarrow> None | Open_fails e \<Rightarrow> Some e | Dump_fails e e' \<Rightarrow> Some e)"
  by (simp add: save_processed_files_log_def split: log_write.splits)

lemma ingest_into_qdrant_alt:
  "ingest_into_qdrant env st w =
     (if all_chunks st = [] then (stats st, w)
      else case fst (from_documents env (all_chunks st) w) of
        Some e \<Rightarrow> (append_error (error_ingesting e) (stats st), snd (from_documents env (all_chunks st) w))
      | None \<Rightarrow>
          (case fst (save_processed_files_log env (processed_log st) (snd (from_documents env (all_chunks st) w))) of
             Some e \<Rightarrow> (append_error (error_ingesting e) ((stats st)\<lparr>total_chunks := length (all_chunks st)\<rparr>),
                        snd (save_processed_files_log env (processed_log st) (snd (from_documents env (all_chunks st) w))))
           | None \<Rightarrow> ((stats st)\<lparr>total_chunks := length (all_chunks st)\<rparr>,
                      snd (save_processed_files_log env (processed_log st) (snd (from_documents env (all_chunks st) w))))))"
  by (simp add: ingest_into_qdrant_def Let_def case_prod_unfold split: option.splits)

lemma ingest_into_qdrant_fault:
  "from_documents_fault env = Some x \<Longrightarrow>
   log_file (snd (ingest_into_qdrant env st w)) = log_file w"
  by (simp add: ingest_into_qdrant_alt from_documents_fst from_documents_log_file)

lemma ingest_into_qdrant_stats:
  "fst (ingest_into_qdrant env st w) = fst (ingest_into_qdrant env st w')"
  by (simp add: ingest_into_qdrant_alt from_documents_fst save_fst
      split: option.splits log_write.splits)

lemma ingest_into_qdrant_log_changed:
  assumes "log_file (snd (ingest_into_qdrant env st w)) \<noteq> log_file w"
  shows "from_documents_fault env = None \<and> all_chunks st \<noteq> [] \<and>
         total_chunks (fst (ingest_into_qdrant env st w)) = length (all_chunks st)"
proof -
  have ne: "all_chunks st \<noteq> []"
    using assms by (auto simp add: ingest_into_qdrant_alt)
  have ok: "from_documents_fault env = None"
    using assms ingest_into_qdrant_fault [of env _ st w]
    by (cases "from_documents_fault env") auto
  have "total_chunks (fst (ingest_into_qdrant env st w)) = length (all_chunks st)"
    using ne ok
    by (simp add: ingest_into_qdrant_alt from_documents_fst append_error_def split: option.splits)
  with ne ok show ?thesis by simp
qed


lemma ingest_into_qdrant_success:
  assumes "processing_errors (fst (ingest_into_qdrant env st w)) = []"
    and "0 < total_chunks (fst (ingest_into_qdrant env st w))"
    and "total_chunks (stats st) = 0"
  shows "log_file (snd (ingest_into_qdrant env st w)) = Stored (processed_log st)"
    and "collection (snd (ingest_into_qdrant env st w)) = Some (points w @ all_chunks st)"
    and "processing_errors (stats st) = []"
proof -
  have ne: "all_chunks st \<noteq> []"
    using assms(2,3) by (auto simp add: ingest_into_qdrant_alt)
  have up: "from_documents_fault env = None"
    using assms(1) ne
    by (cases "from_documents_fault env")
       (simp_all add: ingest_into_qdrant_alt from_documents_fst append_error_def)
  have wr: "log_write env = Written"
    using assms(1) ne up
    by (cases "log_write env")
       (simp_all add: ingest_into_qdrant_alt from_documents_fst save_fst append_error_def)
  show "log_file (snd (ingest_into_qdrant env st w)) = Stored (processed_log st)"
    using ne up wr
    by (simp add: ingest_into_qdrant_alt from_documents_fst save_fst save_processed_files_log_def)
  show "collection (snd (ingest_into_qdrant env st w)) = Some (points w @ all_chunks st)"
    using ne up wr
    by (simp add: ingest_into_qdrant_alt from_documents_fst save_fst save_processed_files_log_def
        from_documents_def)
  show "processing_errors (stats st) = []"
    using assms(1) ne up wr
    by (simp add: ingest_into_qdrant_alt from_documents_fst save_fst)
qed

lemma ingest_unfold:
  "load_processed_files_log w = Inr log \<Longrightarrow>
   ingest_documents_with_deduplication env folder exts force w =
     (Inr (fst (ingest_into_qdrant env
             (files_loop env folder force (all_files env folder exts)
                (initial_state log (length (all_files env folder exts))))
             (create_collection_if_not_exists env w))),
      snd (ingest_into_qdrant env
             (files_loop env folder force (all_files env folder exts)
                (initial_state log (length (all_files env folder exts))))
             (create_collection_if_not_exists env w)))"
  by (simp add: ingest_documents_with_deduplication_def load_after_create Let_def case_prod_unfold)

lemma ingest_raises:
  "load_processed_files_log w = Inl e \<Longrightarrow>
   ingest_documents_with_deduplication env folder exts force w =
     (Inl e, create_collection_if_not_exists env w)"
  by (simp add: ingest_documents_with_deduplication_def load_after_create Let_def)

lemma ingest_stats_depend_on_log_file:
  assumes "log_file w = log_file w'"
  shows "fst (ingest_documents_with_deduplication env folder exts force w) =
         fst (ingest_documents_with_deduplication env folder exts force w')"
proof -
  have same: "load_processed_files_log w = load_processed_files_log w'"
    using assms by (simp add: load_processed_files_log_def)
  show ?thesis
  proof (cases "load_processed_files_log w")
    case (Inl e)
    with same have "load_processed_files_log w' = Inl e" by simp
    with Inl show ?thesis by (simp add: ingest_raises)
  next
    case (Inr log)
    with same have "load_processed_files_log w' = Inr log" by simp
    with Inr show ?thesis
      by (simp add: ingest_unfold
          ingest_into_qdrant_stats [of env _ "create_collection_if_not_exists env w"
                                      "create_collection_if_not_exists env w'"])
  qed
qed

lemma ingest_log_file_fault:
  assumes "from_documents_fault env = Some x"
  shows "log_file (snd (ingest_documents_with_deduplication env folder exts force w)) = log_file w"
proof (cases "load_processed_files_log w")
  case (Inl e)
  then show ?thesis by (simp add: ingest_raises create_collection_log_file)
next
  case (Inr log)
  then show ?thesis
    by (simp add: ingest_unfold ingest_into_qdrant_fault [OF assms] create_collection_log_file)
qed

lemma all_files_cong: "walk env' = walk env \<Longrightarrow> all_files env' folder exts = all_files env folder exts"
  by (simp add: all_files_def)

lemma recorded_cong:
  "relpath env' = relpath env \<Longrightarrow> read_bytes env' = read_bytes env \<Longrightarrow>
   md5_hexdigest env' = md5_hexdigest env \<Longrightarrow>
   recorded env' folder log f = recorded env folder log f"
  by (simp add: recorded_def get_file_hash_def split: sum.splits)

lemma process_file_log_other:
  assumes "relpath env g folder \<noteq> k"
  shows "processed_log (snd (process_file env folder force g st)) k = processed_log st k"
proof (cases "get_file_hash env g")
  case (Inl e)
  then show ?thesis by (simp add: process_file_def)
next
  case (Inr h)
  have *: "processed_log (snd (load_and_split env g (relpath env g folder) h s)) k = processed_log st k"
    if "processed_log s = processed_log st" for s
    using load_and_split_log_other [of k "relpath env g folder" env g h s] assms that by simp
  show ?thesis
    using * [of "bump_new st"] * [of "bump_updated st"]
    by (cases "decide force (processed_log st) (relpath env g folder) h")
       (simp_all add: process_file_def Inr bump_skipped_def bump_new_def bump_updated_def)
qed

lemma files_loop_log_other:
  "\<forall>g \<in> set fs. relpath env g folder \<noteq> k \<Longrightarrow>
   processed_log (files_loop env folder force fs st) k = processed_log st k"
proof (induction fs arbitrary: st)
  case Nil
  show ?case by (simp add: files_loop_Nil)
next
  case (Cons g fs)
  have "processed_log (loop_body env folder force st g) k = processed_log st k"
    using Cons.prems by (simp add: loop_body_log process_file_log_other)
  moreover have "processed_log (files_loop env folder force fs (loop_body env folder force st g)) k =
      processed_log (loop_body env folder force st g) k"
    using Cons.prems by (intro Cons.IH) simp
  ultimately show ?case by (simp add: files_loop_Cons)
qed

lemma process_file_decision:
  assumes "get_file_hash env f = Inr h"
  shows "(\<not> force \<and> (\<exists>entry. processed_log st (relpath env f folder) = Some entry \<and> hash entry = Some h) \<longrightarrow>
            decide force (processed_log st) (relpath env f folder) h = Skip \<and>
            process_file env folder force f st = (None, bump_skipped st)) \<and>
         (\<not> force \<and> (\<exists>entry. processed_log st (relpath env f folder) = Some entry \<and> hash entry \<noteq> Some h) \<longrightarrow>
            decide force (processed_log st) (relpath env f folder) h = Reprocess \<and>
            stats (snd (process_file env folder force f st)) = stats (bump_updated st)) \<and>
         (force \<or> processed_log st (relpath env f folder) = None \<longrightarrow>
            decide force (processed_log st) (relpath env f folder) h = New \<and>
            stats (snd (process_file env folder force f st)) = stats (bump_new st))"
proof (intro conjI impI)
  assume a: "\<not> force \<and> (\<exists>entry. processed_log st (relpath env f folder) = Some entry \<and> hash entry = Some h)"
  then show d: "decide force (processed_log st) (relpath env f folder) h = Skip"
    by (simp add: decide_Skip_iff)
  then show "process_file env folder force f st = (None, bump_skipped st)"
    by (simp add: process_file_def assms)
next
  assume a: "\<not> force \<and> (\<exists>entry. processed_log st (relpath env f folder) = Some entry \<and> hash entry \<noteq> Some h)"
  then show d: "decide force (processed_log st) (relpath env f folder) h = Reprocess"
    by (simp add: decide_Reprocess_iff)
  then show "stats (snd (process_file env folder force f st)) = stats (bump_updated st)"
    by (simp add: process_file_def assms load_and_split_stats)
next
  assume a: "force \<or> processed_log st (relpath env f folder) = None"
  then show d: "decide force (processed_log st) (relpath env f folder) h = New"
    by (simp add: decide_New_iff)
  then show "stats (snd (process_file env folder force f st)) = stats (bump_new st)"
    by (simp add: process_file_def assms load_and_split_stats)
qed

lemmas run_defs =
  ingest_documents_with_deduplication_def all_files_def create_collection_if_not_exists_def
  load_processed_files_log_def files_loop_def initial_state_def loop_body_def process_file_def
  get_file_hash_def decide_def load_and_split_def add_file_metadata_def
  enhanced_text_splitting_def split_one_def split_documents_def add_chunk_metadata_def
  dict_update_def bump_new_def bump_updated_def bump_skipped_def ingest_into_qdrant_def
  from_documents_def save_processed_files_log_def points_def append_error_def
  error_processing_def error_ingesting_def endswith_def path_join_def Let_def

lemma example_first_run:
  "ingest_documents_with_deduplication (example_env ''a.pdf'' ''v1'') ''data'' [''.pdf''] False empty_world =
     (Inr \<lparr>total_files = 1, new_files = 1, updated_files = 0, skipped_files = 0,
           total_chunks = 1, processing_errors = []\<rparr>,
      \<lparr>log_file = Stored (Map.empty(''a.pdf'' \<mapsto>
          \<lparr>hash = Some ''v1'', processed_date = ''2024-01-01T00:00:00'', chunks_count = 1\<rparr>)),
       collection = Some [\<lparr>page_content = ''v1'',
            metadata =
              [(''source'', S ''data/a.pdf''), (''page'', N 0),
               (''source_file'', S ''a.pdf''), (''file_hash'', S ''v1''),
               (''file_size'', N 2), (''chunk_index'', N 0),
               (''total_chunks'', N 1), (''chunk_size'', N 2),
               (''ingestion_date'', S ''2024-01-01T00:00:00'')]\<rparr>]\<rparr>)"
  by (simp add: run_defs example_env_def empty_world_def)

section \<open>The claims\<close>

subsection \<open>C1: re-ingesting a modified file\<close>

text \<open>
  C1 asks that after a modified file is re-ingested the index holds exactly the chunks
  of the file's current content and none of its previous ones. The run below ingests
  \<open>data/a.pdf\<close> with content \<open>v1\<close> into an empty index, then again after the content
  became \<open>v2\<close>: the second run counts one updated file, and the index then holds the
  chunk of \<open>v1\<close> next to the chunk of \<open>v2\<close>. Nothing in the run removes the points of
  the previous content.
\<close>

theorem reingest_keeps_stale_vectors:
  "fst (ingest_documents_with_deduplication (example_env ''a.pdf'' ''v2'') ''data'' [''.pdf''] False
      (snd (ingest_documents_with_deduplication (example_env ''a.pdf'' ''v1'') ''data'' [''.pdf''] False
             empty_world))) =
     Inr \<lparr>total_files = 1, new_files = 0, updated_files = 1, skipped_files = 0,
          total_chunks = 1, processing_errors = []\<rparr> \<and>
   map page_content (points
     (snd (ingest_documents_with_deduplication (example_env ''a.pdf'' ''v2'') ''data'' [''.pdf''] False
        (snd (ingest_documents_with_deduplication (example_env ''a.pdf'' ''v1'') ''data'' [''.pdf''] False
               empty_world))))) = [''v1'', ''v2'']"
  unfolding example_first_run
  by (simp add: run_defs example_env_def)

subsection \<open>C2: \<open>query\<close> never raises\<close>

text \<open>
  C2: for every question \<open>query\<close> returns a result and raises nothing; when the chain
  call fails with \<open>e\<close>, whichever provider failed inside it, the result's answer is the
  apology followed by \<open>e\<close>, its source documents are empty and its metadata carries
  \<open>e\<close> under \<open>error\<close>.
\<close>

theorem query_never_raises:
  "(\<exists>r. query c question = Inr r) \<and>
   (\<forall>e. qa_chain c question = Inl e \<longrightarrow>
      (\<exists>r. query c question = Inr r \<and>
        map_of r ''answer'' = Some (PyStr (''Sorry, I encountered an error: '' @ e)) \<and>
        map_of r ''source_documents'' = Some (PyDocs []) \<and>
        map_of r ''metadata'' = Some (PyDict [(''error'', PyStr e)])))"
  by (simp add: query_def try_except_def error_result_def split: sum.splits)

text \<open>C2 at a chain whose provider refuses the call.\<close>

theorem query_never_raises_witness:
  "qa_chain failing_chain ''What is X?'' = Inl ''Rate limit reached'' \<and>
   (\<exists>r. query failing_chain ''What is X?'' = Inr r \<and>
      map_of r ''answer'' = Some (PyStr ''Sorry, I encountered an error: Rate limit reached'') \<and>
      map_of r ''source_documents'' = Some (PyDocs []) \<and>
      map_of r ''metadata'' = Some (PyDict [(''error'', PyStr ''Rate limit reached'')]))"
proof -
  have h: "qa_chain failing_chain ''What is X?'' = Inl ''Rate limit reached''"
    by (simp add: failing_chain_def)
  from query_never_raises [of failing_chain "''What is X?''"] h
  show ?thesis by auto
qed

subsection \<open>C3: a failed upload leaves the log file alone\<close>

text \<open>
  C3: when \<open>Qdrant.from_documents\<close> fails, the log file after the run is the log file
  before it, and a retry under any environment returns what it would have returned
  from the state before the failed run, so it processes the same files. Conversely
  the log file differs after a run only if the upload succeeded and chunks were
  uploaded.
\<close>

theorem failed_upload_keeps_log:
  "(from_documents_fault env \<noteq> None \<longrightarrow>
      log_file (snd (ingest_documents_with_deduplication env folder exts force w)) = log_file w \<and>
      (\<forall>env'. fst (ingest_documents_with_deduplication env' folder exts force
                     (snd (ingest_documents_with_deduplication env folder exts force w))) =
              fst (ingest_documents_with_deduplication env' folder exts force w))) \<and>
   (log_file (snd (ingest_documents_with_deduplication env folder exts force w)) \<noteq> log_file w \<longrightarrow>
      from_documents_fault env = None \<and>
      (\<exists>s. fst (ingest_documents_with_deduplication env folder exts force w) = Inr s \<and>
           0 < total_chunks s))"
proof (intro conjI impI)
  assume "from_documents_fault env \<noteq> None"
  then obtain x where x: "from_documents_fault env = Some x" by auto
  show kept: "log_file (snd (ingest_documents_with_deduplication env folder exts force w)) = log_file w"
    by (rule ingest_log_file_fault [OF x])
  show "\<forall>env'. fst (ingest_documents_with_deduplication env' folder exts force
                     (snd (ingest_documents_with_deduplication env folder exts force w))) =
              fst (ingest_documents_with_deduplication env' folder exts force w)"
    using ingest_stats_depend_on_log_file [OF kept] by blast
next
  assume changed: "log_file (snd (ingest_documents_with_deduplication env folder exts force w)) \<noteq> log_file w"
  show "from_documents_fault env = None"
  proof (cases "from_documents_fault env")
    case None
    then show ?thesis .
  next
    case (Some x)
    from ingest_log_file_fault [OF Some] changed show ?thesis by blast
  qed
  show "\<exists>s. fst (ingest_documents_with_deduplication env folder exts force w) = Inr s \<and> 0 < total_chunks s"
  proof (cases "load_processed_files_log w")
    case (Inl e)
    with changed show ?thesis by (simp add: ingest_raises create_collection_log_file)
  next
    case (Inr log)
    let ?st = "files_loop env folder force (all_files env folder exts)
                (initial_state log (length (all_files env folder exts)))"
    let ?w = "create_collection_if_not_exists env w"
    from changed Inr have "log_file (snd (ingest_into_qdrant env ?st ?w)) \<noteq> log_file ?w"
      by (simp add: ingest_unfold create_collection_log_file)
    from ingest_into_qdrant_log_changed [OF this]
    have "all_chunks ?st \<noteq> []"
      and "total_chunks (fst (ingest_into_qdrant env ?st ?w)) = length (all_chunks ?st)"
      by simp_all
    then show ?thesis by (simp add: ingest_unfold [OF Inr])
  qed
qed

text \<open>C3 at a run whose upload times out, and at a run whose upload succeeds.\<close>

theorem failed_upload_keeps_log_witness:
  "from_documents_fault unreachable_env \<noteq> None \<and>
   log_file (snd (ingest_documents_with_deduplication unreachable_env ''data'' [''.pdf''] False empty_world)) =
     log_file empty_world \<and>
   log_file (snd (ingest_documents_with_deduplication (example_env ''a.pdf'' ''v1'') ''data'' [''.pdf''] False
                    empty_world)) \<noteq> log_file empty_world \<and>
   from_documents_fault (example_env ''a.pdf'' ''v1'') = None"
proof -
  have h1: "from_documents_fault unreachable_env \<noteq> None"
    by (simp add: unreachable_env_def)
  have h2: "log_file (snd (ingest_documents_with_deduplication (example_env ''a.pdf'' ''v1'') ''data''
                [''.pdf''] False empty_world)) \<noteq> log_file empty_world"
    unfolding example_first_run by (simp add: empty_world_def)
  from failed_upload_keeps_log [of unreachable_env "''data''" "[''.pdf'']" False empty_world]
       failed_upload_keeps_log [of "example_env ''a.pdf'' ''v1''" "''data''" "[''.pdf'']" False empty_world]
       h1 h2
  show ?thesis by blast
qed

subsection \<open>C4: skip, reprocess or new\<close>

text \<open>
  C4 as stated decides by the manifest loaded at the start of the run, and counts a
  file whose key is there under another hash as updated. Two runs show otherwise.
  With \<open>force_reprocess\<close> set the log is not consulted: \<open>a.pdf\<close>, in the loaded log
  under the hash of \<open>v1\<close> and now holding \<open>v2\<close>, is counted as new. And the log
  consulted is the one in memory, which the run itself updates: asked for the
  extensions \<open>.pdf\<close> and \<open>.pdf\<close> with no log file, the run lists \<open>a.pdf\<close> twice,
  counts the first listing as new and skips the second, whose key is not in the
  loaded (empty) log.
\<close>

theorem decide_counterexample:
  "load_processed_files_log world_v1 = Inr log_v1 \<and>
   log_v1 ''a.pdf'' = Some \<lparr>hash = Some ''v1'', processed_date = ''2024-01-01T00:00:00'', chunks_count = 1\<rparr> \<and>
   fst (ingest_documents_with_deduplication (example_env ''a.pdf'' ''v2'') ''data'' [''.pdf''] True world_v1) =
     Inr \<lparr>total_files = 1, new_files = 1, updated_files = 0, skipped_files = 0,
          total_chunks = 1, processing_errors = []\<rparr> \<and>
   load_processed_files_log empty_world = Inr Map.empty \<and>
   fst (ingest_documents_with_deduplication (example_env ''a.pdf'' ''v1'') ''data'' [''.pdf'', ''.pdf''] False
          empty_world) =
     Inr \<lparr>total_files = 2, new_files = 1, updated_files = 0, skipped_files = 1,
          total_chunks = 1, processing_errors = []\<rparr>"
  by (simp add: run_defs example_env_def log_v1_def world_v1_def empty_world_def)

text \<open>
  C4 as amended, for a run whose log was loaded as \<open>m\<close> and a candidate \<open>f\<close> whose
  hash \<open>h\<close> could be computed, with key \<open>k\<close>. The decision is taken against the log
  as it stands in memory at the turn of \<open>f\<close>, that is in the state \<open>st\<close> the loop
  has reached over the files listed before \<open>f\<close>, from which the run goes on to its
  result. That log agrees with \<open>m\<close> at \<open>k\<close> when no file listed before \<open>f\<close> has the
  key \<open>k\<close>. Without force, if it has \<open>k\<close> under \<open>h\<close> the file is skipped: only
  \<open>skipped_files\<close> grows and nothing is loaded. Without force, if it has \<open>k\<close> under
  another hash the file is reprocessed and \<open>updated_files\<close> grows by one. With force,
  or if it has no \<open>k\<close>, the file is new and \<open>new_files\<close> grows by one.
\<close>

theorem decide_at_turn:
  assumes load: "load_processed_files_log w = Inr m"
    and files: "all_files env folder exts = fs @ f # gs"
    and hash: "get_file_hash env f = Inr h"
    and st: "st = files_loop env folder force fs (initial_state m (length (all_files env folder exts)))"
    and k: "k = relpath env f folder"
  shows "fst (ingest_documents_with_deduplication env folder exts force w) =
           Inr (fst (ingest_into_qdrant env
                  (files_loop env folder force gs (loop_body env folder force st f))
                  (create_collection_if_not_exists env w))) \<and>
         ((\<forall>g \<in> set fs. relpath env g folder \<noteq> k) \<longrightarrow> processed_log st k = m k) \<and>
         (\<not> force \<and> (\<exists>entry. processed_log st k = Some entry \<and> hash entry = Some h) \<longrightarrow>
            process_file env folder force f st = (None, bump_skipped st)) \<and>
         (\<not> force \<and> (\<exists>entry. processed_log st k = Some entry \<and> hash entry \<noteq> Some h) \<longrightarrow>
            stats (snd (process_file env folder force f st)) = stats (bump_updated st)) \<and>
         (force \<or> processed_log st k = None \<longrightarrow>
            stats (snd (process_file env folder force f st)) = stats (bump_new st))"
proof -
  define n where "n = length (all_files env folder exts)"
  define F where "F = all_files env folder exts"
  have F: "F = fs @ f # gs" using files by (simp add: F_def)
  have st': "st = files_loop env folder force fs (initial_state m n)"
    using st by (simp only: n_def)
  have loop: "files_loop env folder force F (initial_state m n) =
      files_loop env folder force gs (loop_body env folder force st f)"
    unfolding F files_loop_append files_loop_Cons st' ..
  have "fst (ingest_documents_with_deduplication env folder exts force w) =
          Inr (fst (ingest_into_qdrant env (files_loop env folder force F (initial_state m n))
                 (create_collection_if_not_exists env w)))"
    unfolding ingest_unfold [OF load] F_def n_def by simp
  then have run: "fst (ingest_documents_with_deduplication env folder exts force w) =
           Inr (fst (ingest_into_qdrant env
                  (files_loop env folder force gs (loop_body env folder force st f))
                  (create_collection_if_not_exists env w)))"
    by (simp only: loop)
  have agree: "processed_log st k = m k" if "\<forall>g \<in> set fs. relpath env g folder \<noteq> k"
    unfolding st' using files_loop_log_other [OF that] by (simp add: initial_state_def)
  note cases = process_file_decision [OF hash, of force st folder, folded k]
  from run agree cases show ?thesis by blast
qed

text \<open>
  C4 as amended, at four turns: the second listing of \<open>a.pdf\<close> in the run over the
  extensions \<open>.pdf\<close> and \<open>.pdf\<close> (skipped by the log in memory), \<open>a.pdf\<close> holding
  \<open>v2\<close> against \<open>log_v1\<close> without force (updated) and with force (new), and \<open>b.pdf\<close>
  after \<open>a.pdf\<close> in the folder with two PDFs (its key is in neither log: new).
\<close>

theorem decide_at_turn_witness:
  "all_files (example_env ''a.pdf'' ''v1'') ''data'' [''.pdf'', ''.pdf''] = [''data/a.pdf'', ''data/a.pdf''] \<and>
   process_file (example_env ''a.pdf'' ''v1'') ''data'' False ''data/a.pdf''
       (files_loop (example_env ''a.pdf'' ''v1'') ''data'' False [''data/a.pdf''] (initial_state Map.empty 2)) =
     (None, bump_skipped
       (files_loop (example_env ''a.pdf'' ''v1'') ''data'' False [''data/a.pdf''] (initial_state Map.empty 2))) \<and>
   stats (snd (process_file (example_env ''a.pdf'' ''v2'') ''data'' False ''data/a.pdf'' (initial_state log_v1 1))) =
     stats (bump_updated (initial_state log_v1 1)) \<and>
   stats (snd (process_file (example_env ''a.pdf'' ''v2'') ''data'' True ''data/a.pdf'' (initial_state log_v1 1))) =
     stats (bump_new (initial_state log_v1 1)) \<and>
   all_files two_pdf_env ''data'' [''.pdf''] = [''data/a.pdf'', ''data/b.pdf''] \<and>
   processed_log (files_loop two_pdf_env ''data'' False [''data/a.pdf''] (initial_state Map.empty 2)) ''b.pdf'' =
     None \<and>
   stats (snd (process_file two_pdf_env ''data'' False ''data/b.pdf''
       (files_loop two_pdf_env ''data'' False [''data/a.pdf''] (initial_state Map.empty 2)))) =
     stats (bump_new (files_loop two_pdf_env ''data'' False [''data/a.pdf''] (initial_state Map.empty 2)))"
proof -
  let ?e1 = "example_env ''a.pdf'' ''v1''" and ?e2 = "example_env ''a.pdf'' ''v2''"
  let ?st1 = "files_loop ?e1 ''data'' False [''data/a.pdf'']
                (initial_state Map.empty (length (all_files ?e1 ''data'' [''.pdf'', ''.pdf''])))"
  let ?st2 = "files_loop ?e2 ''data'' False []
                (initial_state log_v1 (length (all_files ?e2 ''data'' [''.pdf''])))"
  let ?st3 = "files_loop ?e2 ''data'' True []
                (initial_state log_v1 (length (all_files ?e2 ''data'' [''.pdf''])))"
  let ?st4 = "files_loop two_pdf_env ''data'' False [''data/a.pdf'']
                (initial_state Map.empty (length (all_files two_pdf_env ''data'' [''.pdf''])))"
  have l0: "load_processed_files_log empty_world = Inr Map.empty"
    by (simp add: load_processed_files_log_def empty_world_def)
  have l1: "load_processed_files_log world_v1 = Inr log_v1"
    by (simp add: load_processed_files_log_def world_v1_def)
  have f1: "all_files ?e1 ''data'' [''.pdf'', ''.pdf''] = [''data/a.pdf''] @ ''data/a.pdf'' # []"
    by (simp add: all_files_def example_env_def endswith_def path_join_def)
  have f2: "all_files ?e2 ''data'' [''.pdf''] = [] @ ''data/a.pdf'' # []"
    by (simp add: all_files_def example_env_def endswith_def path_join_def)
  have f4: "all_files two_pdf_env ''data'' [''.pdf''] = [''data/a.pdf''] @ ''data/b.pdf'' # []"
    by (simp add: all_files_def two_pdf_env_def example_env_def endswith_def path_join_def)
  have h1: "get_file_hash ?e1 ''data/a.pdf'' = Inr ''v1''"
    by (simp add: get_file_hash_def example_env_def)
  have h2: "get_file_hash ?e2 ''data/a.pdf'' = Inr ''v2''"
    by (simp add: get_file_hash_def example_env_def)
  have h4: "get_file_hash two_pdf_env ''data/b.pdf'' = Inr ''v1''"
    by (simp add: get_file_hash_def two_pdf_env_def example_env_def)
  have k1: "''a.pdf'' = relpath ?e1 ''data/a.pdf'' ''data''"
    by (simp add: example_env_def)
  have k2: "''a.pdf'' = relpath ?e2 ''data/a.pdf'' ''data''"
    by (simp add: example_env_def)
  have k4: "''b.pdf'' = relpath two_pdf_env ''data/b.pdf'' ''data''"
    by (simp add: two_pdf_env_def example_env_def)
  have a1: "\<not> False \<and> (\<exists>entry. processed_log ?st1 ''a.pdf'' = Some entry \<and> hash entry = Some ''v1'')"
    unfolding f1 by (simp add: run_defs example_env_def)
  have a2: "\<not> False \<and> (\<exists>entry. processed_log ?st2 ''a.pdf'' = Some entry \<and> hash entry \<noteq> Some ''v2'')"
    by (simp add: files_loop_Nil initial_state_def log_v1_def)
  have a3: "True \<or> processed_log ?st3 ''a.pdf'' = None"
    by simp
  have a4: "\<forall>g \<in> set [''data/a.pdf'']. relpath two_pdf_env g ''data'' \<noteq> ''b.pdf''"
    by (simp add: two_pdf_env_def example_env_def)
  from decide_at_turn [OF l0 f1 h1 refl k1, of False] a1
  have c1: "process_file ?e1 ''data'' False ''data/a.pdf'' ?st1 = (None, bump_skipped ?st1)"
    by blast
  from decide_at_turn [OF l1 f2 h2 refl k2, of False] a2
  have c2: "stats (snd (process_file ?e2 ''data'' False ''data/a.pdf'' ?st2)) = stats (bump_updated ?st2)"
    by blast
  from decide_at_turn [OF l1 f2 h2 refl k2, of True] a3
  have c3: "stats (snd (process_file ?e2 ''data'' True ''data/a.pdf'' ?st3)) = stats (bump_new ?st3)"
    by blast
  from decide_at_turn [OF l0 f4 h4 refl k4, of False] a4
  have c4: "processed_log ?st4 ''b.pdf'' = Map.empty ''b.pdf''"
    by blast
  then have a5: "False \<or> processed_log ?st4 ''b.pdf'' = None" by simp
  from decide_at_turn [OF l0 f4 h4 refl k4, of False] a5
  have c5: "stats (snd (process_file two_pdf_env ''data'' False ''data/b.pdf'' ?st4)) = stats (bump_new ?st4)"
    by blast
  from f1 f2 f4 c1 c2 c3 c4 c5 show ?thesis
    by (simp add: files_loop_Nil numeral_2_eq_2)
qed

subsection \<open>C5: a second run on an unchanged folder\<close>

text \<open>
  C5 as stated says the second of two runs on an unchanged folder skips every file.
  A file is skipped only when the saved log has it under its present hash, and a file
  whose processing raised is not recorded: on the folder whose only PDF cannot be
  parsed the second run, from the state the first one left, counts the file as new
  again and skips nothing.
\<close>

theorem second_run_counterexample:
  "ingest_documents_with_deduplication unparsable_env ''data'' [''.pdf''] False
     (snd (ingest_documents_with_deduplication unparsable_env ''data'' [''.pdf''] False empty_world)) =
   (Inr \<lparr>total_files = 1, new_files = 1, updated_files = 0, skipped_files = 0,
           total_chunks = 0, processing_errors = [''Error processing data/a.pdf: EOF marker not found'']\<rparr>,
      \<lparr>log_file = Absent, collection = Some []\<rparr>)"
  by (simp add: run_defs example_env_def empty_world_def unparsable_env_def)

text \<open>
  C5 as amended: if a first run without force returned statistics without processing
  errors and with a positive \<open>total_chunks\<close> (the upload succeeded and the log was
  saved), every candidate path ends with \<open>.pdf\<close> and distinct candidates have distinct
  keys, then a run without force on the same folder content, from the state the first
  run left, counts no new and no updated file, skips all \<open>total_files\<close> files and
  leaves the log file and the collection, hence the number of vectors, as they were.
\<close>

theorem second_run_skips_all:
  assumes run1: "fst (ingest_documents_with_deduplication env folder exts False w0) = Inr s1"
    and noerr: "processing_errors s1 = []"
    and chunks: "0 < total_chunks s1"
    and pdf: "\<forall>f \<in> set (all_files env folder exts). endswith f ''.pdf''"
    and inj: "inj_on (\<lambda>f. relpath env f folder) (set (all_files env folder exts))"
    and same: "walk env2 = walk env" "relpath env2 = relpath env"
              "read_bytes env2 = read_bytes env" "md5_hexdigest env2 = md5_hexdigest env"
  shows "ingest_documents_with_deduplication env2 folder exts False
           (snd (ingest_documents_with_deduplication env folder exts False w0)) =
         (Inr \<lparr>total_files = length (all_files env folder exts), new_files = 0, updated_files = 0,
               skipped_files = length (all_files env folder exts), total_chunks = 0,
               processing_errors = []\<rparr>,
          snd (ingest_documents_with_deduplication env folder exts False w0))"
proof -
  define F where "F = all_files env folder exts"
  define w1 where "w1 = snd (ingest_documents_with_deduplication env folder exts False w0)"
  obtain log0 where load0: "load_processed_files_log w0 = Inr log0"
    using run1 by (cases "load_processed_files_log w0") (simp_all add: ingest_raises)
  define st1 where "st1 = files_loop env folder False F (initial_state log0 (length F))"
  define cw where "cw = create_collection_if_not_exists env w0"
  have s1: "fst (ingest_into_qdrant env st1 cw) = s1"
    using run1 unfolding ingest_unfold [OF load0] st1_def cw_def F_def by simp
  have w1: "w1 = snd (ingest_into_qdrant env st1 cw)"
    unfolding w1_def ingest_unfold [OF load0] st1_def cw_def F_def by simp
  have zero: "total_chunks (stats st1) = 0"
    by (simp add: st1_def files_loop_totals(2) initial_state_def)
  have noerr': "processing_errors (fst (ingest_into_qdrant env st1 cw)) = []"
    and chunks': "0 < total_chunks (fst (ingest_into_qdrant env st1 cw))"
    using noerr chunks by (simp_all only: s1)
  note ok = ingest_into_qdrant_success [OF noerr' chunks' zero]
  have log1: "log_file w1 = Stored (processed_log st1)"
    using ok(1) by (simp only: w1)
  have coll1: "collection w1 = Some (points cw @ all_chunks st1)"
    using ok(2) by (simp only: w1)
  have "\<forall>g \<in> set F \<union> {}. recorded env folder (processed_log st1) g"
    unfolding st1_def
  proof (rule files_loop_records)
    show "processing_errors (stats (files_loop env folder False F (initial_state log0 (length F)))) = []"
      using ok(3) by (simp only: st1_def)
    show "\<forall>f\<in>set F. endswith f ''.pdf''" using pdf by (simp only: F_def)
    show "inj_on (\<lambda>f. relpath env f folder) (set F \<union> {})" using inj by (simp add: F_def)
    show "\<forall>g\<in>{}. recorded env folder (processed_log (initial_state log0 (length F))) g" by simp
  qed
  then have rec1: "\<forall>g \<in> set F. recorded env folder (processed_log st1) g" by simp
  have rec2: "\<forall>g \<in> set F. recorded env2 folder (processed_log st1) g"
    using rec1 unfolding recorded_cong [OF same(2) same(3) same(4)] .
  have load1: "load_processed_files_log w1 = Inr (processed_log st1)"
    using log1 by (simp add: load_processed_files_log_def)
  have cc: "create_collection_if_not_exists env2 w1 = w1"
    using coll1 by (simp add: create_collection_if_not_exists_def split: option.splits)
  define st0' where "st0' = initial_state (processed_log st1) (length F)"
  have "\<forall>g \<in> set F. recorded env2 folder (processed_log st0') g"
    using rec2 by (simp add: st0'_def initial_state_def)
  from files_loop_all_skipped [OF this]
  have loop2: "files_loop env2 folder False F st0' =
      st0'\<lparr>stats := (stats st0')\<lparr>skipped_files := skipped_files (stats st0') + length F\<rparr>\<rparr>" .
  have F2: "all_files env2 folder exts = F"
    unfolding F_def using same(1) by (rule all_files_cong)
  have "ingest_documents_with_deduplication env2 folder exts False w1 =
         (Inr \<lparr>total_files = length F, new_files = 0, updated_files = 0,
               skipped_files = length F, total_chunks = 0, processing_errors = []\<rparr>, w1)"
    unfolding ingest_unfold [OF load1] F2 cc
    using loop2 by (simp add: st0'_def ingest_into_qdrant_def initial_state_def)
  then show ?thesis by (simp only: F_def w1_def)
qed

text \<open>C5 as amended, at two runs over the folder that holds \<open>a.pdf\<close>.\<close>

theorem second_run_skips_all_witness:
  "fst (ingest_documents_with_deduplication (example_env ''a.pdf'' ''v1'') ''data'' [''.pdf''] False empty_world) =
     Inr \<lparr>total_files = 1, new_files = 1, updated_files = 0, skipped_files = 0,
           total_chunks = 1, processing_errors = []\<rparr> \<and>
   ingest_documents_with_deduplication (example_env ''a.pdf'' ''v1'') ''data'' [''.pdf''] False
     (snd (ingest_documents_with_deduplication (example_env ''a.pdf'' ''v1'') ''data'' [''.pdf''] False empty_world)) =
     (Inr \<lparr>total_files = 1, new_files = 0, updated_files = 0, skipped_files = 1,
           total_chunks = 0, processing_errors = []\<rparr>,
      snd (ingest_documents_with_deduplication (example_env ''a.pdf'' ''v1'') ''data'' [''.pdf''] False empty_world))"
proof -
  let ?env = "example_env ''a.pdf'' ''v1''"
  let ?s1 = "\<lparr>total_files = 1, new_files = 1, updated_files = 0, skipped_files = 0,
           total_chunks = 1, processing_errors = []\<rparr>"
  have files: "all_files ?env ''data'' [''.pdf''] = [''data/a.pdf'']"
    by (simp add: all_files_def example_env_def endswith_def path_join_def)
  have h1: "fst (ingest_documents_with_deduplication ?env ''data'' [''.pdf''] False empty_world) = Inr ?s1"
    unfolding example_first_run by simp
  have h2: "processing_errors ?s1 = []" by simp
  have h3: "0 < total_chunks ?s1" by simp
  have h4: "\<forall>f \<in> set (all_files ?env ''data'' [''.pdf'']). endswith f ''.pdf''"
    unfolding files by (simp add: endswith_def)
  have h5: "inj_on (\<lambda>f. relpath ?env f ''data'') (set (all_files ?env ''data'' [''.pdf'']))"
    unfolding files by simp
  from second_run_skips_all [OF h1 h2 h3 h4 h5 refl refl refl refl] h1
  show ?thesis unfolding files by simp
qed

subsection \<open>C6: files that are not PDFs\<close>

text \<open>
  C6 asks that every new or changed candidate whose extension was requested is loaded,
  chunked and recorded, and \<open>RAGConfig\<close> lists \<open>.txt\<close> among the supported extensions.
  The run below is asked for \<open>.txt\<close> on a folder holding \<open>notes.txt\<close>: the file is
  counted as new, yet no chunk is produced, nothing is uploaded and no log is written.
\<close>

theorem non_pdf_counted_but_dropped:
  "ingest_documents_with_deduplication (example_env ''notes.txt'' ''hello'') ''data'' [''.txt''] False
     empty_world =
     (Inr \<lparr>total_files = 1, new_files = 1, updated_files = 0, skipped_files = 0,
           total_chunks = 0, processing_errors = []\<rparr>,
      \<lparr>log_file = Absent, collection = Some []\<rparr>)"
  by (simp add: run_defs example_env_def empty_world_def)

subsection \<open>C7: an unreadable log file\<close>

text \<open>
  C7 as stated says an unreadable log file is treated as an empty log and never makes
  the run fail. On a log file that \<open>json.load\<close> rejects the run of the example folder
  ends with that exception, once the collection was created, and returns no
  statistics.
\<close>

theorem corrupt_log_counterexample:
  "ingest_documents_with_deduplication (example_env ''a.pdf'' ''v1'') ''data'' [''.pdf''] False
     corrupt_world =
   (Inl ''Expecting value: line 1 column 1 (char 0)'',
    \<lparr>log_file = Unreadable ''Expecting value: line 1 column 1 (char 0)'', collection = Some []\<rparr>)"
  by (simp add: run_defs example_env_def corrupt_world_def)

text \<open>
  C7 as amended: an absent log file is loaded as the empty log and the run returns
  statistics; on a log file that cannot be read the exception of the load leaves
  \<open>ingest_documents_with_deduplication\<close> before any file is looked at, and the log
  file stays as it was.
\<close>

theorem corrupt_log_raises:
  "(log_file w = Absent \<longrightarrow>
      load_processed_files_log w = Inr Map.empty \<and>
      (\<exists>s w'. ingest_documents_with_deduplication env folder exts force w = (Inr s, w'))) \<and>
   (\<forall>e. log_file w = Unreadable e \<longrightarrow>
      ingest_documents_with_deduplication env folder exts force w =
        (Inl e, create_collection_if_not_exists env w) \<and>
      log_file (create_collection_if_not_exists env w) = Unreadable e)"
proof (intro conjI impI allI)
  assume a: "log_file w = Absent"
  then show l: "load_processed_files_log w = Inr Map.empty"
    by (simp add: load_processed_files_log_def)
  show "\<exists>s w'. ingest_documents_with_deduplication env folder exts force w = (Inr s, w')"
    by (simp add: ingest_unfold [OF l])
next
  fix e assume u: "log_file w = Unreadable e"
  then have "load_processed_files_log w = Inl e"
    by (simp add: load_processed_files_log_def)
  then show "ingest_documents_with_deduplication env folder exts force w =
        (Inl e, create_collection_if_not_exists env w)"
    by (rule ingest_raises)
  show "log_file (create_collection_if_not_exists env w) = Unreadable e"
    using u by (simp add: create_collection_log_file)
qed

text \<open>C7 as amended, without a log file and with an unreadable one.\<close>

theorem corrupt_log_raises_witness:
  "log_file empty_world = Absent \<and>
   (\<exists>s w'. ingest_documents_with_deduplication (example_env ''a.pdf'' ''v1'') ''data'' [''.pdf''] False
              empty_world = (Inr s, w')) \<and>
   log_file corrupt_world = Unreadable ''Expecting value: line 1 column 1 (char 0)'' \<and>
   ingest_documents_with_deduplication (example_env ''a.pdf'' ''v1'') ''data'' [''.pdf''] False corrupt_world =
     (Inl ''Expecting value: line 1 column 1 (char 0)'',
      create_collection_if_not_exists (example_env ''a.pdf'' ''v1'') corrupt_world)"
proof -
  have h1: "log_file empty_world = Absent"
    by (simp add: empty_world_def)
  have h2: "log_file corrupt_world = Unreadable ''Expecting value: line 1 column 1 (char 0)''"
    by (simp add: corrupt_world_def)
  from corrupt_log_raises [of empty_world "example_env ''a.pdf'' ''v1''" "''data''" "[''.pdf'']" False]
       corrupt_log_raises [of corrupt_world "example_env ''a.pdf'' ''v1''" "''data''" "[''.pdf'']" False]
       h1 h2
  show ?thesis by blast
qed

subsection \<open>C8: the token budget of the memory\<close>

text \<open>
  C8 is about what \<open>ConversationSummaryBufferMemory\<close> does when a turn is appended.
  \<open>setup_components\<close> only constructs that object with \<open>max_token_limit=800\<close>, the
  value of \<open>memory_max_tokens\<close> in \<open>default_config\<close>; the pruning, the token count and
  the summarisation call are the library's and have no source here to embed, so no
  statement about them is made.
\<close>

subsection \<open>C9: an error in one file\<close>



subsection \<open>C10: the splitter for a document\<close>



end
